theory Spec2Isabelle
  imports Main
begin

section \<open>A shallow embedding of the circular buffer of \<open>src/index.ts\<close>\<close>

text \<open>
  The two classes of the source, \<open>CBState\<close> and \<open>CircularBuffer\<close>, are records; a method
  takes the object and returns it updated, with its result. A capacity passed by the
  caller is an integer; the element type does not contain \<open>undefined\<close>, which is the empty
  indicator \<open>None\<close>. The iterator of \<open>CircularBuffer\<close> is not part of the embedding.
\<close>

subsection \<open>JavaScript numbers used as indices\<close>

text \<open>
  The cursors of the ring are JavaScript numbers. Every value they take is a natural
  number, or \<open>NaN\<close>: \<open>x % 0\<close> is \<open>NaN\<close> in JavaScript, and the constructor accepts the
  capacity 0. \<open>NaN\<close> is absorbing for \<open>+\<close> and \<open>%\<close>, and every comparison with it is
  false.
\<close>

datatype jsnum = Num nat | NaN

fun js_succ :: "jsnum \<Rightarrow> jsnum" where
  "js_succ (Num i) = Num (i + 1)"
| "js_succ NaN = NaN"

fun js_mod :: "jsnum \<Rightarrow> nat \<Rightarrow> jsnum" where
  "js_mod (Num i) c = (if c = 0 then NaN else Num (i mod c))"
| "js_mod NaN c = NaN"

fun js_less :: "jsnum \<Rightarrow> nat \<Rightarrow> bool" where
  "js_less (Num i) c = (i < c)"
| "js_less NaN c = False"

subsection \<open>Errors, diagnostics and arrays\<close>

text \<open>
  \<open>BNCIS\<close> records the two arguments its constructor is called with (the source puts
  both into the message of the error). \<open>RangeError\<close> is what \<open>new Array(n)\<close> throws
  when \<open>n\<close> is not an array length, that is, not in \<open>[0, 2^32)\<close>.
\<close>

datatype error = BNCIS int int | RangeError

text \<open>The two messages written with \<open>console.warn\<close>.\<close>

datatype diagnostic = FullWarning | OverwriteWarning

text \<open>
  A JavaScript array is an object whose properties are looked up by key: a key that was
  never assigned reads as \<open>undefined\<close> (here \<open>None\<close>), and an assignment to any key,
  also one at or beyond the length, or \<open>NaN\<close>, creates the property. The source never
  reads the length of its array, so the array is the map from keys to values. A stored
  value of the element type is \<open>Some v\<close>.
\<close>

type_synonym 'a js_array = "jsnum \<Rightarrow> 'a option"

definition new_Array :: "int \<Rightarrow> error + 'a js_array" where
  "new_Array n = (if 0 \<le> n \<and> n < 2 ^ 32 then Inr (\<lambda>k. None) else Inl RangeError)"

subsection \<open>The class \<open>CBState\<close>\<close>

record 'a CBState =
  buffer :: "'a js_array"
  capacity :: nat
  writeIndex :: jsnum
  readIndex :: jsnum
  nElements :: nat

definition new_CBState :: "int \<Rightarrow> error + 'a CBState" where
  "new_CBState cap =
     (case new_Array cap of
        Inl e \<Rightarrow> Inl e
      | Inr arr \<Rightarrow>
          Inr \<lparr>buffer = arr, capacity = nat cap, writeIndex = Num 0, readIndex = Num 0,
               nElements = 0\<rparr>)"

definition st_elements :: "'a CBState \<Rightarrow> nat" where
  "st_elements s = nElements s"

text \<open>The setter of \<open>elements\<close>: \<open>Math.max(0, value)\<close>.\<close>

definition set_elements :: "'a CBState \<Rightarrow> int \<Rightarrow> 'a CBState" where
  "set_elements s v = s\<lparr>nElements := nat (max 0 v)\<rparr>"

definition st_size :: "'a CBState \<Rightarrow> nat" where
  "st_size s = st_elements s"

definition st_isEmpty :: "'a CBState \<Rightarrow> bool" where
  "st_isEmpty s = (st_size s = 0)"

definition st_isFull :: "'a CBState \<Rightarrow> bool" where
  "st_isFull s = (st_size s = capacity s)"

text \<open>
  \<open>clear\<close> allocates \<open>new Array(this.capacity)\<close>; the capacity of a state was accepted
  by \<open>new Array\<close> when the state got it, so the allocation does not throw.
\<close>

definition st_clear :: "'a CBState \<Rightarrow> 'a CBState" where
  "st_clear s =
     set_elements (s\<lparr>buffer := (\<lambda>k. None), writeIndex := Num 0, readIndex := Num 0\<rparr>) 0"

definition incReadIndex :: "'a CBState \<Rightarrow> 'a CBState" where
  "incReadIndex s = s\<lparr>readIndex := js_mod (js_succ (readIndex s)) (capacity s)\<rparr>"

definition incWriteIndex :: "'a CBState \<Rightarrow> 'a CBState" where
  "incWriteIndex s = s\<lparr>writeIndex := js_mod (js_succ (writeIndex s)) (capacity s)\<rparr>"

definition writeAtIndex :: "'a CBState \<Rightarrow> jsnum \<Rightarrow> 'a option \<Rightarrow> 'a CBState" where
  "writeAtIndex s i v = s\<lparr>buffer := (buffer s)(i := v)\<rparr>"

definition readAtIndex :: "'a CBState \<Rightarrow> jsnum \<Rightarrow> 'a option" where
  "readAtIndex s i = (let pointer = js_mod i (capacity s) in buffer s pointer)"

definition st_read :: "'a CBState \<Rightarrow> 'a option \<times> 'a CBState" where
  "st_read s = (let v = readAtIndex s (readIndex s) in (v, incReadIndex s))"

definition st_write :: "'a CBState \<Rightarrow> 'a \<Rightarrow> 'a CBState" where
  "st_write s v =
     (let s1 = writeAtIndex s (writeIndex s) (Some v);
          s2 = (if \<not> st_isFull s1 then set_elements s1 (int (st_elements s1) + 1) else s1)
      in incWriteIndex s2)"

text \<open>The copying loop of \<open>resize\<close>: \<open>newBuffer[i] = this.readAtIndex(i)\<close> for \<open>i\<close> from 0.\<close>

fun copy_loop :: "'a CBState \<Rightarrow> nat list \<Rightarrow> 'a js_array \<Rightarrow> 'a js_array" where
  "copy_loop s [] newBuffer = newBuffer"
| "copy_loop s (i # is) newBuffer = copy_loop s is (newBuffer(Num i := readAtIndex s (Num i)))"

text \<open>
  \<open>resize\<close> returns the error it throws, if any, with the state the object is left in.
\<close>

definition st_resize :: "'a CBState \<Rightarrow> int \<Rightarrow> bool \<Rightarrow> error option \<times> 'a CBState" where
  "st_resize s newCapacity force =
     (if \<not> force \<and> newCapacity < int (capacity s)
      then (Some (BNCIS newCapacity (int (capacity s))), s)
      else case new_Array newCapacity of
        Inl e \<Rightarrow> (Some e, s)
      | Inr arr \<Rightarrow>
          (let numElementsToCopy = min (nat newCapacity) (st_size s);
               newBuffer = copy_loop s [0..<numElementsToCopy] arr
           in (None,
               set_elements
                 (s\<lparr>buffer := newBuffer, capacity := nat newCapacity,
                    writeIndex := Num numElementsToCopy, readIndex := Num 0\<rparr>)
                 (int numElementsToCopy))))"

text \<open>The loop of \<open>toArray\<close> pushes \<open>readAtIndex(i)\<close> for \<open>i = 0, ..., size - 1\<close>.\<close>

definition st_toArray :: "'a CBState \<Rightarrow> 'a option list" where
  "st_toArray s = map (\<lambda>i. readAtIndex s (Num i)) [0..<st_size s]"

subsection \<open>The class \<open>CircularBuffer\<close>\<close>

text \<open>\<open>CBConfig\<close>, every field optional, and \<open>Required<CBConfig>\<close>.\<close>

datatype CBConfig =
  CBConfig (cfg_overwrite: "bool option") (cfg_warnOnFull: "bool option")
    (cfg_notifyOnOverwrite: "bool option")

record RequiredCBConfig =
  overwrite :: bool
  warnOnFull :: bool
  notifyOnOverwrite :: bool

text \<open>The operator \<open>??\<close>.\<close>

fun nullish :: "'b option \<Rightarrow> 'b \<Rightarrow> 'b" where
  "nullish None d = d"
| "nullish (Some v) d = v"

record 'a CircularBuffer =
  config :: RequiredCBConfig
  bufferState :: "'a CBState"

definition new_CircularBuffer :: "int \<Rightarrow> CBConfig \<Rightarrow> error + 'a CircularBuffer" where
  "new_CircularBuffer cap cfg =
     (let c = \<lparr>overwrite = nullish (cfg_overwrite cfg) False,
               warnOnFull = nullish (cfg_warnOnFull cfg) True,
               notifyOnOverwrite = nullish (cfg_notifyOnOverwrite cfg) False\<rparr>
      in case new_CBState cap of
           Inl e \<Rightarrow> Inl e
         | Inr s \<Rightarrow> Inr \<lparr>config = c, bufferState = s\<rparr>)"

definition cb_capacity :: "'a CircularBuffer \<Rightarrow> nat" where
  "cb_capacity b = capacity (bufferState b)"

definition isEmpty :: "'a CircularBuffer \<Rightarrow> bool" where
  "isEmpty b = st_isEmpty (bufferState b)"

definition isFull :: "'a CircularBuffer \<Rightarrow> bool" where
  "isFull b = st_isFull (bufferState b)"

definition cb_size :: "'a CircularBuffer \<Rightarrow> nat" where
  "cb_size b = st_size (bufferState b)"

definition clear :: "'a CircularBuffer \<Rightarrow> 'a CircularBuffer" where
  "clear b = b\<lparr>bufferState := st_clear (bufferState b)\<rparr>"

definition read :: "'a CircularBuffer \<Rightarrow> 'a option \<times> 'a CircularBuffer" where
  "read b =
     (if isEmpty b then (None, b)
      else case st_read (bufferState b) of (v, s) \<Rightarrow> (v, b\<lparr>bufferState := s\<rparr>))"

definition dump :: "'a CircularBuffer \<Rightarrow> 'a option \<times> 'a CircularBuffer" where
  "dump b =
     (if isEmpty b then (None, b)
      else
        (let s = bufferState b;
             v = readAtIndex s (readIndex s);
             s1 = writeAtIndex s (readIndex s) None;
             s2 = set_elements s1 (int (st_elements s1) - 1);
             s3 = incReadIndex s2
         in (v, b\<lparr>bufferState := s3\<rparr>)))"

text \<open>\<open>write\<close> (here \<open>cb_write\<close>) returns the diagnostics it prints, in order, with the buffer.\<close>

definition cb_write :: "'a CircularBuffer \<Rightarrow> 'a \<Rightarrow> diagnostic list \<times> 'a CircularBuffer" where
  "cb_write b v =
     (if \<not> overwrite (config b) \<and> isFull b \<and> warnOnFull (config b)
      then ([FullWarning], b)
      else if overwrite (config b) \<or> js_less (writeIndex (bufferState b)) (cb_capacity b)
      then
        (let b1 = b\<lparr>bufferState := st_write (bufferState b) v\<rparr>
         in (if notifyOnOverwrite (config b) \<and> writeIndex (bufferState b1) = Num 0
             then [OverwriteWarning] else [],
             b1))
      else ([], b))"

fun writeAll :: "'a CircularBuffer \<Rightarrow> 'a list \<Rightarrow> diagnostic list \<times> 'a CircularBuffer" where
  "writeAll b [] = ([], b)"
| "writeAll b (v # vs) =
     (case cb_write b v of (d1, b1) \<Rightarrow>
        (case writeAll b1 vs of (d2, b2) \<Rightarrow> (d1 @ d2, b2)))"

definition from_values ::
  "'a list \<Rightarrow> int \<Rightarrow> CBConfig \<Rightarrow> error + (diagnostic list \<times> 'a CircularBuffer)" where
  "from_values vs cap cfg =
     (case new_CircularBuffer cap cfg of
        Inl e \<Rightarrow> Inl e
      | Inr b \<Rightarrow> Inr (writeAll b vs))"

definition toArray :: "'a CircularBuffer \<Rightarrow> bool \<Rightarrow> 'a option list \<times> 'a CircularBuffer" where
  "toArray b clr =
     (let result = st_toArray (bufferState b)
      in (result, if clr then clear b else b))"

definition resize :: "'a CircularBuffer \<Rightarrow> int \<Rightarrow> bool \<Rightarrow> error option \<times> 'a CircularBuffer" where
  "resize b newCapacity force =
     (case st_resize (bufferState b) newCapacity force of
        (e, s) \<Rightarrow> (e, b\<lparr>bufferState := s\<rparr>))"

text \<open>\<open>n\<close> calls of \<open>dump\<close> in a row, the returned values dropped.\<close>

primrec dumps :: "nat \<Rightarrow> 'a CircularBuffer \<Rightarrow> 'a CircularBuffer" where
  "dumps 0 b = b"
| "dumps (Suc n) b = dumps n (snd (dump b))"

subsection \<open>The specification's reading of the logical order\<close>

text \<open>
  The specification places the logical element at offset \<open>i\<close> in the physical slot
  \<open>(readCursor + i) mod capacity\<close>, for \<open>i < count\<close>. \<open>toSequence_spec\<close> lists the slots
  in that order; it follows the specification's words, and is compared below with
  \<open>st_toArray\<close>, which follows the source.
\<close>

fun js_add :: "jsnum \<Rightarrow> nat \<Rightarrow> jsnum" where
  "js_add (Num i) k = Num (i + k)"
| "js_add NaN k = NaN"

definition toSequence_spec :: "'a CBState \<Rightarrow> 'a option list" where
  "toSequence_spec s =
     map (\<lambda>i. buffer s (js_mod (js_add (readIndex s) i) (capacity s))) [0..<nElements s]"

text \<open>
  A ring whose \<open>capacity\<close> slots all hold a value, with the count at the capacity and the
  read cursor inside the ring.
\<close>

definition all_occupied :: "'a CBState \<Rightarrow> bool" where
  "all_occupied s =
     (0 < capacity s \<and> nElements s = capacity s \<and>
      list_all (\<lambda>i. buffer s (Num i) \<noteq> None) [0..<capacity s] \<and>
      (case readIndex s of Num r \<Rightarrow> r < capacity s | NaN \<Rightarrow> False))"

text \<open>
  The bounds the operations keep: the count is at most the capacity and, in a ring with
  at least one slot, the read cursor is a slot of the ring and the write cursor is a slot
  of the ring or the capacity itself.
\<close>

definition bounds_ok :: "'a CBState \<Rightarrow> bool" where
  "bounds_ok s =
     (nElements s \<le> capacity s \<and>
      (capacity s = 0 \<or>
       js_less (readIndex s) (capacity s) \<and> js_less (writeIndex s) (capacity s + 1)))"

text \<open>
  A ring filled from slot 0 by writes and nothing else: the values \<open>vs\<close>, in the order
  they were written, stand in the slots \<open>0, ..., length vs - 1\<close>.
\<close>

definition filled_with :: "'a list \<Rightarrow> 'a CBState \<Rightarrow> bool" where
  "filled_with vs s =
     (0 < capacity s \<and> length vs \<le> capacity s \<and> nElements s = length vs \<and>
      readIndex s = Num 0 \<and> writeIndex s = Num (length vs mod capacity s) \<and>
      map (\<lambda>i. buffer s (Num i)) [0..<length vs] = map Some vs)"

text \<open>
  A sequence of calls of \<open>write\<close> and \<open>read\<close> on a buffer, the results of the calls
  dropped.
\<close>

datatype 'a call = Write 'a | Read

fun apply_call :: "'a CircularBuffer \<Rightarrow> 'a call \<Rightarrow> 'a CircularBuffer" where
  "apply_call b (Write v) = snd (cb_write b v)"
| "apply_call b Read = snd (read b)"

fun run_calls :: "'a CircularBuffer \<Rightarrow> 'a call list \<Rightarrow> 'a CircularBuffer" where
  "run_calls b [] = b"
| "run_calls b (c # cs) = run_calls (apply_call b c) cs"

text \<open>
  What writes and reads keep of a fresh buffer: the count is at most the capacity, the
  slots \<open>0, ..., count - 1\<close> all hold a value, and while the buffer is not full the write
  cursor is the slot \<open>count\<close>.
\<close>

definition prefix_live :: "'a CBState \<Rightarrow> bool" where
  "prefix_live s =
     (nElements s \<le> capacity s \<and>
      (nElements s = capacity s \<or> writeIndex s = Num (nElements s)) \<and>
      list_all (\<lambda>i. buffer s (Num i) \<noteq> None) [0..<nElements s])"

subsection \<open>Example buffers\<close>

text \<open>
  \<open>full123 c\<close> is the buffer of capacity 3 after \<open>writeAll([1, 2, 3])\<close> under the
  configuration \<open>c\<close>; \<open>single1\<close> is the buffer of capacity 3 after \<open>write(1)\<close> and
  \<open>empty3\<close> the fresh buffer of capacity 3, both under the default configuration (lemmas
  \<open>full123_built\<close>, \<open>single1_built\<close> and \<open>empty3_built\<close>).
\<close>

definition default_config :: RequiredCBConfig where
  "default_config = \<lparr>overwrite = False, warnOnFull = True, notifyOnOverwrite = False\<rparr>"

definition slots123 :: "int js_array" where
  "slots123 = (\<lambda>k. None)(Num 0 := Some 1, Num 1 := Some 2, Num 2 := Some 3)"

definition full123 :: "RequiredCBConfig \<Rightarrow> int CircularBuffer" where
  "full123 c =
     \<lparr>config = c,
      bufferState = \<lparr>buffer = slots123, capacity = 3, writeIndex = Num 0, readIndex = Num 0,
                      nElements = 3\<rparr>\<rparr>"

definition single1 :: "int CircularBuffer" where
  "single1 =
     \<lparr>config = default_config,
      bufferState = \<lparr>buffer = (\<lambda>k. None)(Num 0 := Some 1), capacity = 3,
                      writeIndex = Num 1, readIndex = Num 0, nElements = 1\<rparr>\<rparr>"

definition empty3 :: "int CircularBuffer" where
  "empty3 =
     \<lparr>config = default_config,
      bufferState = \<lparr>buffer = (\<lambda>k. None), capacity = 3,
                      writeIndex = Num 0, readIndex = Num 0, nElements = 0\<rparr>\<rparr>"

section \<open>Properties\<close>

subsection \<open>Unfolding and evaluation\<close>

lemmas cb_defs =
  from_values_def new_CircularBuffer_def new_CBState_def new_Array_def cb_write_def
  st_write_def writeAtIndex_def incWriteIndex_def incReadIndex_def set_elements_def
  st_elements_def st_size_def st_isFull_def st_isEmpty_def isFull_def isEmpty_def
  cb_capacity_def cb_size_def readAtIndex_def st_read_def read_def dump_def toArray_def
  st_toArray_def resize_def st_resize_def clear_def st_clear_def Let_def

lemma slots123_Suc:
  "slots123 = (\<lambda>k. None)(Num 0 := Some 1, Num (Suc 0) := Some 2, Num (Suc (Suc 0)) := Some 3)"
  by (simp only: slots123_def numeral_2_eq_2 One_nat_def)

lemmas ex_defs = full123_def single1_def empty3_def default_config_def slots123_Suc

lemma snd_writeAll_Cons:
  "snd (writeAll b (v # vs)) = snd (writeAll (snd (cb_write b v)) vs)"
  by (simp split: prod.splits)

lemma fst_writeAll_Cons:
  "fst (writeAll b (v # vs)) = fst (cb_write b v) @ fst (writeAll (snd (cb_write b v)) vs)"
  by (simp split: prod.splits)

lemma dumps_numeral:
  "dumps (numeral k) b = dumps (pred_numeral k) (snd (dump b))"
  by (simp add: numeral_eq_Suc)

text \<open>The example buffers are what the constructor and \<open>writeAll\<close> build.\<close>

lemma full123_built:
  "from_values [1, 2, 3] 3 (CBConfig None None None) = Inr ([], full123 default_config)"
  "from_values [1, 2, 3] 3 (CBConfig (Some False) (Some False) None) =
     Inr ([], full123 (default_config\<lparr>warnOnFull := False\<rparr>))"
  "from_values [1, 2, 3] 3 (CBConfig (Some True) None None) =
     Inr ([], full123 (default_config\<lparr>overwrite := True\<rparr>))"
  by (simp_all add: cb_defs ex_defs)

lemma single1_built:
  "from_values [1] 3 (CBConfig None None None) = Inr ([], single1)"
  by (simp add: cb_defs ex_defs)

lemma empty3_built:
  "new_CircularBuffer 3 (CBConfig None None None) = Inr empty3"
  by (simp add: cb_defs ex_defs)

subsection \<open>Filling a fresh buffer\<close>

lemma capacity_write: "cb_capacity (snd (cb_write b v)) = cb_capacity b"
  by (simp add: cb_write_def st_write_def writeAtIndex_def incWriteIndex_def
      set_elements_def cb_capacity_def Let_def)

lemma capacity_writeAll: "cb_capacity (snd (writeAll b vs)) = cb_capacity b"
  by (induction vs arbitrary: b) (simp_all add: snd_writeAll_Cons capacity_write del: writeAll.simps(2))

lemma filled_with_new:
  assumes "new_CircularBuffer cap cfg = Inr b" "0 < cap"
  shows "filled_with [] (bufferState b)"
  using assms
  by (auto simp: new_CircularBuffer_def new_CBState_def new_Array_def filled_with_def
      split: if_splits)

lemma filled_with_write:
  assumes "filled_with vs (bufferState b)" "length vs < cb_capacity b"
  shows "filled_with (vs @ [v]) (bufferState (snd (cb_write b v)))"
proof -
  let ?s = "bufferState b"
  from assms have nf: "\<not> isFull b"
    by (simp add: filled_with_def isFull_def st_isFull_def st_size_def st_elements_def
        cb_capacity_def)
  from assms have w: "writeIndex ?s = Num (length vs)"
    by (simp add: filled_with_def cb_capacity_def)
  from assms w nf have eq: "bufferState (snd (cb_write b v)) =
      ?s\<lparr>buffer := (buffer ?s)(Num (length vs) := Some v),
         nElements := Suc (length vs),
         writeIndex := Num (Suc (length vs) mod capacity ?s)\<rparr>"
    by (simp add: cb_write_def st_write_def writeAtIndex_def incWriteIndex_def
        set_elements_def st_elements_def st_isFull_def st_size_def isFull_def
        cb_capacity_def filled_with_def Let_def)
  from assms have "map (\<lambda>i. buffer ?s (Num i)) [0..<length vs] = map Some vs"
    by (simp add: filled_with_def)
  moreover have "map (\<lambda>i. ((buffer ?s)(Num (length vs) := Some v)) (Num i)) [0..<length vs] =
      map (\<lambda>i. buffer ?s (Num i)) [0..<length vs]"
    by (rule map_cong [OF refl]) simp
  ultimately have "map (\<lambda>i. ((buffer ?s)(Num (length vs) := Some v)) (Num i)) [0..<length vs] =
      map Some vs"
    by (simp only:)
  with assms show ?thesis
    unfolding eq by (simp add: filled_with_def cb_capacity_def)
qed

lemma filled_with_toArray:
  assumes "filled_with vs (bufferState b)"
  shows "fst (toArray b False) = map Some vs \<and> cb_size b = length vs"
proof -
  from assms have "nElements (bufferState b) \<le> capacity (bufferState b)"
    by (simp add: filled_with_def)
  then have "st_toArray (bufferState b) =
      map (\<lambda>i. buffer (bufferState b) (Num i)) [0..<nElements (bufferState b)]"
    by (auto simp: st_toArray_def st_size_def st_elements_def readAtIndex_def)
  with assms show ?thesis
    by (simp add: filled_with_def toArray_def cb_size_def st_size_def st_elements_def)
qed

lemma filled_with_writeAll:
  assumes "filled_with us (bufferState b)" "length us + length vs \<le> cb_capacity b"
  shows "filled_with (us @ vs) (bufferState (snd (writeAll b vs)))"
  using assms
proof (induction vs arbitrary: b us)
  case Nil
  then show ?case by simp
next
  case (Cons v vs)
  from Cons.prems have lt: "length us < cb_capacity b" by simp
  from filled_with_write [OF Cons.prems(1) lt, of v]
  have f: "filled_with (us @ [v]) (bufferState (snd (cb_write b v)))" .
  from Cons.prems(2) capacity_write [of b v]
  have "length (us @ [v]) + length vs \<le> cb_capacity (snd (cb_write b v))" by simp
  from Cons.IH [OF f this] show ?case
    by (simp add: snd_writeAll_Cons del: writeAll.simps(2))
qed

lemma filled_with_all_occupied:
  assumes "filled_with vs s" "length vs = capacity s"
  shows "all_occupied s"
proof -
  from assms have m: "map (\<lambda>i. buffer s (Num i)) [0..<capacity s] = map Some vs"
    by (simp add: filled_with_def)
  have "buffer s (Num i) \<noteq> None" if "i < capacity s" for i
  proof -
    from that assms have "map (\<lambda>i. buffer s (Num i)) [0..<capacity s] ! i = map Some vs ! i"
      using m by simp
    with that assms show ?thesis by simp
  qed
  with assms show ?thesis
    by (simp add: all_occupied_def filled_with_def list_all_iff)
qed

text \<open>
  Writing at most \<open>capacity\<close> values into a fresh buffer stores all of them in order; writing
  exactly \<open>capacity\<close> values leaves every slot of the ring occupied.
\<close>

lemma fresh_writeAll:
  assumes "new_CircularBuffer cap cfg = Inr b" "0 < cap" "int (length vs) \<le> cap"
  shows "fst (toArray (snd (writeAll b vs)) False) = map Some vs \<and>
         cb_size (snd (writeAll b vs)) = length vs \<and>
         (int (length vs) = cap \<longrightarrow> all_occupied (bufferState (snd (writeAll b vs))))"
proof -
  from assms(1) have c: "cb_capacity b = nat cap"
    by (auto simp: new_CircularBuffer_def new_CBState_def new_Array_def cb_capacity_def
        split: if_splits)
  with assms(3) have "length ([] :: 'a list) + length vs \<le> cb_capacity b" by simp
  from filled_with_writeAll [OF filled_with_new [OF assms(1,2)] this]
  have f: "filled_with vs (bufferState (snd (writeAll b vs)))" by simp
  have "all_occupied (bufferState (snd (writeAll b vs)))" if "int (length vs) = cap"
  proof -
    from c that capacity_writeAll [of b vs]
    have "length vs = capacity (bufferState (snd (writeAll b vs)))"
      by (simp add: cb_capacity_def)
    from filled_with_all_occupied [OF f this] show ?thesis .
  qed
  with filled_with_toArray [OF f] show ?thesis by simp
qed

subsection \<open>Bounds kept by every operation\<close>

text \<open>
  The constructor establishes \<open>bounds_ok\<close> and every operation of the buffer keeps it.
  The write cursor is bounded by the capacity itself, not by the last slot: see
  \<open>resize\<close> below.
\<close>

lemma bounds_ok_new:
  "new_CircularBuffer cap cfg = Inr b \<Longrightarrow> bounds_ok (bufferState b)"
  by (auto simp: new_CircularBuffer_def new_CBState_def new_Array_def bounds_ok_def
      split: if_splits)

lemma bounds_ok_st_write:
  "bounds_ok s \<Longrightarrow> bounds_ok (st_write s v)"
  by (cases "writeIndex s")
    (auto simp: bounds_ok_def st_write_def writeAtIndex_def incWriteIndex_def st_isFull_def
      st_size_def st_elements_def set_elements_def Let_def less_Suc_eq_le
      intro: less_imp_le)

lemma bounds_ok_write:
  "bounds_ok (bufferState b) \<Longrightarrow> bounds_ok (bufferState (snd (cb_write b v)))"
  by (simp add: cb_write_def bounds_ok_st_write Let_def)

lemma bounds_ok_writeAll:
  "bounds_ok (bufferState b) \<Longrightarrow> bounds_ok (bufferState (snd (writeAll b vs)))"
proof (induction vs arbitrary: b)
  case Nil
  then show ?case by simp
next
  case (Cons v vs)
  from Cons.IH [OF bounds_ok_write [OF Cons.prems, of v]] show ?case
    by (simp only: snd_writeAll_Cons)
qed

lemma bounds_ok_read:
  "bounds_ok (bufferState b) \<Longrightarrow> bounds_ok (bufferState (snd (read b)))"
  by (cases "readIndex (bufferState b)")
    (auto simp: bounds_ok_def read_def st_read_def incReadIndex_def Let_def)

lemma bounds_ok_dump:
  "bounds_ok (bufferState b) \<Longrightarrow> bounds_ok (bufferState (snd (dump b)))"
  by (cases "readIndex (bufferState b)")
    (auto simp: bounds_ok_def dump_def incReadIndex_def writeAtIndex_def set_elements_def
      st_elements_def Let_def)

lemma bounds_ok_clear:
  "bounds_ok (bufferState b) \<Longrightarrow> bounds_ok (bufferState (clear b))"
  by (auto simp: bounds_ok_def clear_def st_clear_def set_elements_def)

lemma bounds_ok_resize:
  "bounds_ok (bufferState b) \<Longrightarrow> bounds_ok (bufferState (snd (resize b newCapacity force)))"
  by (auto simp: bounds_ok_def resize_def st_resize_def new_Array_def set_elements_def
      st_size_def st_elements_def Let_def)

lemma bounds_ok_toArray:
  "bounds_ok (bufferState b) \<Longrightarrow> bounds_ok (bufferState (snd (toArray b clr)))"
  by (simp add: toArray_def bounds_ok_clear)

text \<open>
  In a state within these bounds the count is at most the capacity, and the read cursor
  of a non-empty buffer is a slot of the ring.
\<close>

lemma bounds_ok_size: "bounds_ok (bufferState b) \<Longrightarrow> cb_size b \<le> cb_capacity b"
  by (simp add: bounds_ok_def cb_size_def cb_capacity_def st_size_def st_elements_def)

lemma bounds_ok_read_cursor:
  assumes "bounds_ok (bufferState b)" "\<not> isEmpty b"
  shows "\<exists>r. readIndex (bufferState b) = Num r \<and> r < cb_capacity b"
  using assms
  by (cases "readIndex (bufferState b)")
    (auto simp: bounds_ok_def isEmpty_def st_isEmpty_def st_size_def st_elements_def
      cb_capacity_def)

lemmas bounds_ok_preserved =
  bounds_ok_new bounds_ok_write bounds_ok_writeAll bounds_ok_read bounds_ok_dump
  bounds_ok_clear bounds_ok_resize bounds_ok_toArray

subsection \<open>Writing to a full buffer\<close>

text \<open>
  With \<open>overwrite\<close> false and \<open>warnOnFull\<close> true, a write to a full buffer prints the
  full-buffer warning and changes nothing.
\<close>

lemma write_full_warned:
  "\<not> overwrite (config b) \<Longrightarrow> isFull b \<Longrightarrow> warnOnFull (config b) \<Longrightarrow>
     cb_write b v = ([FullWarning], b)"
  by (simp add: cb_write_def)

text \<open>
  Claim C1 (a full buffer with \<open>overwrite\<close> false rejects every write, whatever
  \<open>warnOnFull\<close> is). The source returns early only when \<open>warnOnFull\<close> is true; its second
  test, \<open>writeIndex < capacity\<close>, holds of every cursor that \<open>incWriteIndex\<close> produces. So
  with \<open>overwrite\<close> and \<open>warnOnFull\<close> both false, the buffer of capacity 3 holding 1, 2, 3
  takes the write of 4: no diagnostic, and the sequence becomes 4, 2, 3.
\<close>

theorem write_full_silent_overwrites:
  "\<not> overwrite (config (full123 (default_config\<lparr>warnOnFull := False\<rparr>))) \<and>
   isFull (full123 (default_config\<lparr>warnOnFull := False\<rparr>)) \<and>
   cb_size (full123 (default_config\<lparr>warnOnFull := False\<rparr>)) =
     cb_capacity (full123 (default_config\<lparr>warnOnFull := False\<rparr>)) \<and>
   fst (toArray (full123 (default_config\<lparr>warnOnFull := False\<rparr>)) False) =
     [Some 1, Some 2, Some 3] \<and>
   fst (cb_write (full123 (default_config\<lparr>warnOnFull := False\<rparr>)) 4) = [] \<and>
   fst (toArray (snd (cb_write (full123 (default_config\<lparr>warnOnFull := False\<rparr>)) 4)) False) =
     [Some 4, Some 2, Some 3] \<and>
   cb_size (snd (cb_write (full123 (default_config\<lparr>warnOnFull := False\<rparr>)) 4)) = 3"
  by (simp add: cb_defs ex_defs upt_conv_Cons)

text \<open>
  Claim C4 (the overwrite diagnostic needs \<open>overwrite\<close> to be true). The source tests only
  \<open>notifyOnOverwrite\<close> and the cursor after the write. In a buffer of capacity 3 with
  \<open>overwrite\<close> false and \<open>notifyOnOverwrite\<close> true, the third write, which overwrites
  nothing, brings the write cursor to 0 and prints the overwrite diagnostic.
\<close>

theorem overwrite_warning_without_overwrite:
  "(case new_CircularBuffer 3 (CBConfig (Some False) None (Some True)) of
      Inl e \<Rightarrow> False
    | Inr b \<Rightarrow>
        \<not> overwrite (config b) \<and>
        fst (writeAll b [1, 2, 3 :: int]) = [OverwriteWarning] \<and>
        fst (cb_write (snd (writeAll b [1, 2])) 3) = [OverwriteWarning] \<and>
        fst (toArray (snd (writeAll b [1, 2, 3])) False) = [Some 1, Some 2, Some 3])"
  by (simp add: cb_defs upt_conv_Cons)

text \<open>
  Claim C9: in a fresh buffer of capacity 3 with \<open>overwrite\<close> true, writing 1, 2, 3, 4
  gives the sequence 4, 2, 3; the first \<open>read\<close> then returns 4 and the second returns 2.
\<close>

theorem overwrite_example:
  "(case from_values [1, 2, 3, 4 :: int] 3 (CBConfig (Some True) None None) of
      Inl e \<Rightarrow> False
    | Inr (d, b) \<Rightarrow>
        fst (toArray b False) = [Some 4, Some 2, Some 3] \<and>
        fst (read b) = Some 4 \<and>
        fst (read (snd (read b))) = Some 2)"
  by (simp add: cb_defs upt_conv_Cons)

subsection \<open>A buffer of capacity 0\<close>

lemma write_capacity_zero:
  assumes "capacity (bufferState b) = 0" "nElements (bufferState b) = 0"
  shows "capacity (bufferState (snd (cb_write b v))) = 0 \<and>
         nElements (bufferState (snd (cb_write b v))) = 0"
  using assms by (simp add: cb_defs)

lemma writeAll_capacity_zero:
  "capacity (bufferState b) = 0 \<Longrightarrow> nElements (bufferState b) = 0 \<Longrightarrow>
     capacity (bufferState (snd (writeAll b vs))) = 0 \<and>
     nElements (bufferState (snd (writeAll b vs))) = 0"
proof (induction vs arbitrary: b)
  case Nil
  then show ?case by simp
next
  case (Cons v vs)
  from write_capacity_zero [OF Cons.prems, of v]
  have "capacity (bufferState (snd (cb_write b v))) = 0"
    and "nElements (bufferState (snd (cb_write b v))) = 0" by simp_all
  from Cons.IH [OF this] show ?case
    by (simp only: snd_writeAll_Cons)
qed

text \<open>
  Claim C10: the constructor accepts the capacity 0 under every configuration; the buffer
  it returns is empty and full at once, and after any sequence of writes its size is still
  0 (and it is still empty and full).
\<close>

theorem capacity_zero_accepted:
  "(case new_CircularBuffer 0 cfg of
      Inl e \<Rightarrow> False
    | Inr b \<Rightarrow>
        cb_capacity b = 0 \<and> isEmpty b \<and> isFull b \<and>
        cb_size (snd (writeAll b (vs :: 'a list))) = 0 \<and>
        isEmpty (snd (writeAll b vs)) \<and> isFull (snd (writeAll b vs)))"
proof -
  obtain b :: "'a CircularBuffer" where b: "new_CircularBuffer 0 cfg = Inr b"
    by (simp add: new_CircularBuffer_def new_CBState_def new_Array_def)
  then have z: "capacity (bufferState b) = 0" "nElements (bufferState b) = 0"
    by (auto simp: new_CircularBuffer_def new_CBState_def new_Array_def)
  from writeAll_capacity_zero [OF z, of vs] z b show ?thesis
    by (simp add: isEmpty_def isFull_def cb_size_def cb_capacity_def st_isEmpty_def
        st_isFull_def st_size_def st_elements_def)
qed

text \<open>The same at the capacity 0 with \<open>overwrite\<close> true and the writes 1, 2, 3.\<close>

theorem capacity_zero_accepted_witness:
  "(case new_CircularBuffer 0 (CBConfig (Some True) None None) of
      Inl e \<Rightarrow> False
    | Inr b \<Rightarrow>
        cb_capacity b = 0 \<and> isEmpty b \<and> isFull b \<and>
        cb_size (snd (writeAll b [1, 2, 3 :: int])) = 0 \<and>
        isEmpty (snd (writeAll b [1, 2, 3])) \<and> isFull (snd (writeAll b [1, 2, 3])))"
  using capacity_zero_accepted
    [where cfg = "CBConfig (Some True) None None" and vs = "[1, 2, 3 :: int]"]
  by simp

subsection \<open>Shrinking without \<open>force\<close>\<close>

text \<open>
  Claim C7: \<open>resize\<close> to a capacity below the current one, with \<open>force\<close> false, throws
  \<open>BNCIS\<close> constructed from the requested and the current capacity, and the buffer is left
  as it was: capacity, size and content are unchanged.
\<close>

theorem resize_shrink_rejected:
  assumes "newCapacity < int (cb_capacity b)"
  shows "resize b newCapacity False = (Some (BNCIS newCapacity (int (cb_capacity b))), b) \<and>
         cb_capacity (snd (resize b newCapacity False)) = cb_capacity b \<and>
         cb_size (snd (resize b newCapacity False)) = cb_size b \<and>
         fst (toArray (snd (resize b newCapacity False)) False) = fst (toArray b False)"
proof -
  from assms
  have "resize b newCapacity False = (Some (BNCIS newCapacity (int (cb_capacity b))), b)"
    by (simp add: resize_def st_resize_def cb_capacity_def)
  then show ?thesis by simp
qed

theorem resize_shrink_rejected_witness:
  "(2::int) < int (cb_capacity (full123 default_config)) \<and>
   resize (full123 default_config) 2 False = (Some (BNCIS 2 3), full123 default_config)"
  using resize_shrink_rejected [of 2 "full123 default_config"]
  by (simp add: full123_def cb_capacity_def)

subsection \<open>\<open>dump\<close>\<close>

lemma dump_empty: "isEmpty b \<Longrightarrow> dump b = (None, b)"
  by (simp add: dump_def)

lemma size_dump: "cb_size (snd (dump b)) = cb_size b - 1"
  by (simp add: cb_defs nat_diff_distrib)

lemma size_dumps: "cb_size (dumps n b) = cb_size b - n"
  by (induction n arbitrary: b) (simp_all add: size_dump)

lemma dump_nonempty:
  assumes "\<not> isEmpty b" "readIndex (bufferState b) = Num r" "r < cb_capacity b"
  shows "dump b =
      (buffer (bufferState b) (Num r),
       b\<lparr>bufferState := (bufferState b)
           \<lparr>buffer := (buffer (bufferState b))(Num r := None),
            readIndex := Num ((r + 1) mod cb_capacity b),
            nElements := nElements (bufferState b) - 1\<rparr>\<rparr>)"
  using assms by (simp add: cb_defs)

text \<open>
  Claim C8: \<open>dump\<close> on an empty buffer returns the empty indicator and leaves the buffer,
  of size 0, as it is. On a non-empty buffer whose read cursor is the slot \<open>r\<close> of the
  ring (as it is in every state within \<open>bounds_ok\<close>, by \<open>bounds_ok_read_cursor\<close>), \<open>dump\<close>
  returns the content of slot \<open>r\<close>, clears that slot, takes one off the count and moves
  the read cursor to \<open>(r + 1) mod capacity\<close>; nothing else changes. After three calls on a
  full buffer of three elements the size is 0 and a fourth call returns the empty
  indicator.
\<close>

theorem dump_behaviour:
  "(isEmpty b \<longrightarrow> dump b = (None, b) \<and> cb_size (snd (dump b)) = 0) \<and>
   (\<not> isEmpty b \<and> readIndex (bufferState b) = Num r \<and> r < cb_capacity b \<longrightarrow>
      dump b =
        (buffer (bufferState b) (Num r),
         b\<lparr>bufferState := (bufferState b)
             \<lparr>buffer := (buffer (bufferState b))(Num r := None),
              readIndex := Num ((r + 1) mod cb_capacity b),
              nElements := nElements (bufferState b) - 1\<rparr>\<rparr>) \<and>
      cb_size (snd (dump b)) = cb_size b - 1) \<and>
   (isFull b \<and> cb_size b = 3 \<longrightarrow>
      cb_size (dumps 3 b) = 0 \<and> fst (dump (dumps 3 b)) = None)"
proof (intro conjI impI)
  assume "isEmpty b"
  then show "dump b = (None, b)" by (rule dump_empty)
  from \<open>isEmpty b\<close> show "cb_size (snd (dump b)) = 0"
    by (simp add: dump_empty isEmpty_def st_isEmpty_def cb_size_def)
next
  assume "\<not> isEmpty b \<and> readIndex (bufferState b) = Num r \<and> r < cb_capacity b"
  then show "dump b =
        (buffer (bufferState b) (Num r),
         b\<lparr>bufferState := (bufferState b)
             \<lparr>buffer := (buffer (bufferState b))(Num r := None),
              readIndex := Num ((r + 1) mod cb_capacity b),
              nElements := nElements (bufferState b) - 1\<rparr>\<rparr>)"
    by (simp add: dump_nonempty)
  show "cb_size (snd (dump b)) = cb_size b - 1" by (rule size_dump)
next
  assume "isFull b \<and> cb_size b = 3"
  then show z: "cb_size (dumps 3 b) = 0" by (simp add: size_dumps)
  then have "isEmpty (dumps 3 b)" by (simp add: isEmpty_def st_isEmpty_def cb_size_def)
  then show "fst (dump (dumps 3 b)) = None" by (simp add: dump_empty)
qed

text \<open>
  At the empty buffer of capacity 3, and at the buffer of capacity 3 holding 1, 2, 3 with
  the read cursor at slot 0.
\<close>

theorem dump_behaviour_witness:
  "isEmpty empty3 \<and> dump empty3 = (None, empty3) \<and> cb_size (snd (dump empty3)) = 0 \<and>
   \<not> isEmpty (full123 default_config) \<and>
   readIndex (bufferState (full123 default_config)) = Num 0 \<and>
   0 < cb_capacity (full123 default_config) \<and>
   fst (dump (full123 default_config)) = Some 1 \<and>
   buffer (bufferState (snd (dump (full123 default_config)))) (Num 0) = None \<and>
   readIndex (bufferState (snd (dump (full123 default_config)))) = Num 1 \<and>
   cb_size (snd (dump (full123 default_config))) = 2 \<and>
   isFull (full123 default_config) \<and> cb_size (full123 default_config) = 3 \<and>
   cb_size (dumps 3 (full123 default_config)) = 0 \<and>
   fst (dump (dumps 3 (full123 default_config))) = None"
  using dump_behaviour [of empty3 0] dump_behaviour [of "full123 default_config" 0]
  by (simp add: ex_defs isEmpty_def isFull_def st_isEmpty_def st_isFull_def cb_size_def
      st_size_def st_elements_def cb_capacity_def)

subsection \<open>\<open>toArray\<close>\<close>

lemma st_toArray_read: "st_toArray (bufferState (snd (read b))) = st_toArray (bufferState b)"
  by (simp add: cb_defs)

lemma st_toArray_slots:
  assumes "nElements s \<le> capacity s"
  shows "st_toArray s = map (\<lambda>i. buffer s (Num i)) [0..<nElements s]"
  using assms by (auto simp: cb_defs)

lemma st_toArray_spec:
  assumes "readIndex s = Num 0"
  shows "st_toArray s = toSequence_spec s"
  using assms by (simp add: cb_defs toSequence_spec_def)

lemma prefix_live_new:
  "new_CircularBuffer cap cfg = Inr b \<Longrightarrow> prefix_live (bufferState b)"
  by (auto simp: new_CircularBuffer_def new_CBState_def new_Array_def prefix_live_def
      split: if_splits)

lemma prefix_live_st_write:
  assumes "prefix_live s"
  shows "prefix_live (st_write s v)"
proof (cases "nElements s = capacity s")
  case True
  with assms show ?thesis
    by (simp add: prefix_live_def st_write_def writeAtIndex_def incWriteIndex_def
        st_isFull_def st_size_def st_elements_def Let_def list_all_iff)
next
  case False
  with assms have w: "writeIndex s = Num (nElements s)" and lt: "nElements s < capacity s"
    by (simp_all add: prefix_live_def)
  from lt have m: "Suc (nElements s) = capacity s \<or>
      Suc (nElements s) mod capacity s = Suc (nElements s)"
    by (cases "Suc (nElements s) = capacity s") simp_all
  from assms False w lt m show ?thesis
    by (auto simp: prefix_live_def st_write_def writeAtIndex_def incWriteIndex_def
        st_isFull_def st_size_def st_elements_def set_elements_def Let_def list_all_iff)
qed

lemma prefix_live_write:
  "prefix_live (bufferState b) \<Longrightarrow> prefix_live (bufferState (snd (cb_write b v)))"
  by (simp add: cb_write_def prefix_live_st_write Let_def)

lemma prefix_live_read:
  "prefix_live (bufferState b) \<Longrightarrow> prefix_live (bufferState (snd (read b)))"
  by (simp add: read_def st_read_def incReadIndex_def prefix_live_def Let_def)

lemma prefix_live_run_calls:
  "prefix_live (bufferState b) \<Longrightarrow> prefix_live (bufferState (run_calls b cs))"
proof (induction cs arbitrary: b)
  case Nil
  then show ?case by simp
next
  case (Cons c cs)
  from Cons.prems have "prefix_live (bufferState (apply_call b c))"
    by (cases c) (simp_all add: prefix_live_write prefix_live_read)
  from Cons.IH [OF this] show ?case by simp
qed

lemma prefix_live_toArray:
  assumes "prefix_live (bufferState b)"
  shows "fst (toArray b False) = map (\<lambda>i. buffer (bufferState b) (Num i)) [0..<cb_size b]"
    and "list_all (\<lambda>x. x \<noteq> None) (fst (toArray b False))"
proof -
  from assms have "nElements (bufferState b) \<le> capacity (bufferState b)"
    by (simp add: prefix_live_def)
  from st_toArray_slots [OF this]
  show e: "fst (toArray b False) = map (\<lambda>i. buffer (bufferState b) (Num i)) [0..<cb_size b]"
    by (simp add: toArray_def cb_size_def st_size_def st_elements_def)
  from assms show "list_all (\<lambda>x. x \<noteq> None) (fst (toArray b False))"
    unfolding e by (simp add: prefix_live_def list_all_iff cb_size_def st_size_def st_elements_def)
qed

text \<open>
  Claim C3, as amended. In every state that calls of \<open>write\<close> and \<open>read\<close> produce from a
  constructed buffer, \<open>toArray\<close> (with \<open>clear\<close> false) leaves the buffer as it is and returns
  exactly \<open>size\<close> elements, each a stored value: the \<open>i\<close>-th is the content of the physical
  slot \<open>i\<close>, counted from slot 0 and not from the read cursor. So a further \<open>read\<close>, which
  only moves the read cursor, does not change what \<open>toArray\<close> returns, and the result is
  the cursor-relative sequence of the specification when the read cursor is 0. States in
  which \<open>dump\<close> has removed an element are not covered.
\<close>

theorem toArray_after_writes_and_reads:
  assumes "new_CircularBuffer cap cfg = Inr b0"
  shows "snd (toArray (run_calls b0 cs) False) = run_calls b0 cs \<and>
         length (fst (toArray (run_calls b0 cs) False)) = cb_size (run_calls b0 cs) \<and>
         fst (toArray (run_calls b0 cs) False) =
           map (\<lambda>i. buffer (bufferState (run_calls b0 cs)) (Num i))
             [0..<cb_size (run_calls b0 cs)] \<and>
         list_all (\<lambda>x. x \<noteq> None) (fst (toArray (run_calls b0 cs) False)) \<and>
         fst (toArray (run_calls b0 (cs @ [Read])) False) =
           fst (toArray (run_calls b0 cs) False) \<and>
         (readIndex (bufferState (run_calls b0 cs)) = Num 0 \<longrightarrow>
            fst (toArray (run_calls b0 cs) False) =
              toSequence_spec (bufferState (run_calls b0 cs)))"
proof -
  let ?b = "run_calls b0 cs"
  from prefix_live_run_calls [OF prefix_live_new [OF assms]]
  have p: "prefix_live (bufferState ?b)" .
  have r: "run_calls b0 (cs @ [Read]) = snd (read ?b)"
    by (induction cs arbitrary: b0) simp_all
  have "snd (toArray ?b False) = ?b" by (simp add: toArray_def)
  moreover have "length (fst (toArray ?b False)) = cb_size ?b"
    by (simp add: toArray_def st_toArray_def cb_size_def)
  moreover note prefix_live_toArray [OF p]
  moreover have "fst (toArray (run_calls b0 (cs @ [Read])) False) = fst (toArray ?b False)"
    unfolding r by (simp add: toArray_def st_toArray_read)
  moreover have "fst (toArray ?b False) = toSequence_spec (bufferState ?b)"
    if "readIndex (bufferState ?b) = Num 0"
    using that by (simp add: toArray_def st_toArray_spec)
  ultimately show ?thesis by simp
qed

text \<open>
  With \<open>overwrite\<close> true, after the writes 1, 2, 3, 4 and one \<open>read\<close>; and under the default
  configuration after the writes 1, 2, where the read cursor is 0.
\<close>

theorem toArray_after_writes_and_reads_witness:
  "new_CircularBuffer 3 (CBConfig (Some True) None None) =
     Inr (empty3\<lparr>config := default_config\<lparr>overwrite := True\<rparr>\<rparr>) \<and>
   cb_size (run_calls (empty3\<lparr>config := default_config\<lparr>overwrite := True\<rparr>\<rparr>)
     [Write 1, Write 2, Write 3, Write 4, Read]) = 3 \<and>
   readIndex (bufferState (run_calls (empty3\<lparr>config := default_config\<lparr>overwrite := True\<rparr>\<rparr>)
     [Write 1, Write 2, Write 3, Write 4, Read])) = Num 1 \<and>
   fst (toArray (run_calls (empty3\<lparr>config := default_config\<lparr>overwrite := True\<rparr>\<rparr>)
     [Write 1, Write 2, Write 3, Write 4, Read]) False) = [Some 4, Some 2, Some 3] \<and>
   fst (toArray (run_calls (empty3\<lparr>config := default_config\<lparr>overwrite := True\<rparr>\<rparr>)
     ([Write 1, Write 2, Write 3, Write 4, Read] @ [Read])) False) = [Some 4, Some 2, Some 3] \<and>
   new_CircularBuffer 3 (CBConfig None None None) = Inr empty3 \<and>
   readIndex (bufferState (run_calls empty3 [Write 1, Write 2])) = Num 0 \<and>
   fst (toArray (run_calls empty3 [Write 1, Write 2]) False) = [Some 1, Some 2] \<and>
   fst (toArray (run_calls empty3 [Write 1, Write 2]) False) =
     toSequence_spec (bufferState (run_calls empty3 [Write 1, Write 2]))"
  using toArray_after_writes_and_reads
    [where cap = 3 and cfg = "CBConfig (Some True) None None"
       and ?b0.0 = "empty3\<lparr>config := default_config\<lparr>overwrite := True\<rparr>\<rparr>"
       and cs = "[Write 1, Write 2, Write 3, Write 4, Read]"]
    toArray_after_writes_and_reads
    [where cap = 3 and cfg = "CBConfig None None None" and ?b0.0 = empty3
       and cs = "[Write 1, Write 2]"]
  by (simp add: cb_defs ex_defs toSequence_spec_def upt_conv_Cons)

text \<open>
  Claim C3 as stated fails: after one \<open>read\<close> of the buffer of capacity 3 holding 1, 2, 3
  the read cursor is 1 and the slots \<open>(readCursor + i) mod capacity\<close> hold 2, 3, 1, while
  \<open>toArray\<close> returns 1, 2, 3.
\<close>

theorem toArray_cursor_relative_counterexample:
  "readIndex (bufferState (snd (read (full123 default_config)))) = Num 1 \<and>
   cb_size (snd (read (full123 default_config))) = 3 \<and>
   fst (toArray (snd (read (full123 default_config))) False) = [Some 1, Some 2, Some 3] \<and>
   toSequence_spec (bufferState (snd (read (full123 default_config)))) =
     [Some 2, Some 3, Some 1] \<and>
   fst (toArray (snd (read (full123 default_config))) False) \<noteq>
     toSequence_spec (bufferState (snd (read (full123 default_config))))"
  by (simp add: cb_defs ex_defs toSequence_spec_def upt_conv_Cons)

subsection \<open>\<open>read\<close>\<close>

lemma read_empty: "isEmpty b \<Longrightarrow> read b = (None, b)"
  by (simp add: read_def)

lemma read_nonempty:
  assumes "\<not> isEmpty b" "readIndex (bufferState b) = Num r" "r < cb_capacity b"
  shows "read b =
      (buffer (bufferState b) (Num r),
       b\<lparr>bufferState := (bufferState b)\<lparr>readIndex := Num ((r + 1) mod cb_capacity b)\<rparr>\<rparr>)"
  using assms by (simp add: cb_defs)

lemma all_occupied_read_Some:
  assumes "all_occupied (bufferState b)"
  shows "fst (read b) \<noteq> None"
proof -
  from assms obtain r
    where r: "readIndex (bufferState b) = Num r" "r < capacity (bufferState b)"
    by (auto simp: all_occupied_def split: jsnum.splits)
  from assms have ne: "\<not> isEmpty b"
    by (simp add: all_occupied_def cb_defs)
  from assms r have "buffer (bufferState b) (Num r) \<noteq> None"
    by (simp add: all_occupied_def list_all_iff)
  with r ne show ?thesis
    by (simp add: read_nonempty cb_capacity_def)
qed

lemma all_occupied_read:
  assumes "all_occupied (bufferState b)"
  shows "all_occupied (bufferState (snd (read b)))"
  using assms
  by (auto simp: all_occupied_def cb_defs split: jsnum.splits)

lemma all_occupied_write:
  assumes "all_occupied (bufferState b)"
  shows "all_occupied (bufferState (snd (cb_write b v)))"
  using assms
  by (auto simp: all_occupied_def cb_defs list_all_iff split: jsnum.splits)

text \<open>
  Claim C6 (\<open>read\<close> returns the empty indicator only on an empty buffer). \<open>read\<close> tests only
  \<open>isEmpty\<close>, and \<open>incReadIndex\<close> moves the read cursor over all the slots of the ring, not
  over the live ones. In the buffer of capacity 3 holding only 1, the first \<open>read\<close> returns
  1 and moves the read cursor to slot 1, which was never written; the buffer is still
  non-empty (size 1, \<open>toArray\<close> returns 1) and the second \<open>read\<close> returns the empty
  indicator.
\<close>

theorem read_returns_empty_indicator_on_nonempty:
  "from_values [1] 3 (CBConfig None None None) = Inr ([], single1) \<and>
   \<not> isEmpty single1 \<and> fst (read single1) = Some 1 \<and>
   \<not> isEmpty (snd (read single1)) \<and> cb_size (snd (read single1)) = 1 \<and>
   fst (toArray (snd (read single1)) False) = [Some 1] \<and>
   readIndex (bufferState (snd (read single1))) = Num 1 \<and>
   fst (read (snd (read single1))) = None"
  by (simp add: cb_defs ex_defs upt_conv_Cons)

subsection \<open>\<open>resize\<close>\<close>

text \<open>
  A \<open>resize\<close> that is accepted (not a shrink without \<open>force\<close>, and a capacity that
  \<open>new Array\<close> takes) throws nothing, sets the read cursor to 0 and the write cursor to
  the new count, and keeps what \<open>toArray\<close> returns, cut to the new capacity.
\<close>

lemma copy_loop_apply:
  "copy_loop s js arr k =
     (case k of Num i \<Rightarrow> if i \<in> set js then readAtIndex s (Num i) else arr k | NaN \<Rightarrow> arr k)"
  by (induction js arbitrary: arr) (auto split: jsnum.splits)

lemma resize_accepted:
  assumes "force \<or> int (cb_capacity b) \<le> newCapacity" "0 \<le> newCapacity" "newCapacity < 2 ^ 32"
  shows "fst (resize b newCapacity force) = None \<and>
         config (snd (resize b newCapacity force)) = config b \<and>
         cb_capacity (snd (resize b newCapacity force)) = nat newCapacity \<and>
         cb_size (snd (resize b newCapacity force)) = min (nat newCapacity) (cb_size b) \<and>
         readIndex (bufferState (snd (resize b newCapacity force))) = Num 0 \<and>
         writeIndex (bufferState (snd (resize b newCapacity force))) =
           Num (min (nat newCapacity) (cb_size b)) \<and>
         fst (toArray (snd (resize b newCapacity force)) False) =
           take (nat newCapacity) (fst (toArray b False))"
proof -
  let ?s = "bufferState b"
  let ?n = "min (nat newCapacity) (nElements ?s)"
  let ?s' = "?s\<lparr>buffer := copy_loop ?s [0..<?n] (\<lambda>k. None), capacity := nat newCapacity,
                writeIndex := Num ?n, readIndex := Num 0, nElements := ?n\<rparr>"
  from assms have r: "resize b newCapacity force = (None, b\<lparr>bufferState := ?s'\<rparr>)"
    by (auto simp: resize_def st_resize_def new_Array_def cb_capacity_def st_size_def
        st_elements_def set_elements_def Let_def)
  have "st_toArray ?s' = take (nat newCapacity) (st_toArray ?s)"
  proof (rule nth_equalityI)
    show "length (st_toArray ?s') = length (take (nat newCapacity) (st_toArray ?s))"
      by (simp add: st_toArray_def st_size_def st_elements_def min.commute)
  next
    fix i assume "i < length (st_toArray ?s')"
    then have i: "i < nat newCapacity" "i < nElements ?s"
      by (simp_all add: st_toArray_def st_size_def st_elements_def)
    then have "0 < nat newCapacity" "i mod nat newCapacity = i"
      by simp_all
    with i show "st_toArray ?s' ! i = take (nat newCapacity) (st_toArray ?s) ! i"
      by (simp add: st_toArray_def st_size_def st_elements_def readAtIndex_def
          copy_loop_apply)
  qed
  with r show ?thesis
    by (simp add: toArray_def cb_capacity_def cb_size_def st_size_def st_elements_def)
qed

text \<open>
  Claim C2 (\<open>resize\<close> to a capacity that is not smaller keeps all live elements in their
  order). The copying loop of the source reads the slots 0, 1, ... and not the slots from
  the read cursor on, and then sets the read cursor to 0. In the buffer of capacity 3
  holding 1, 2, 3, after one \<open>dump\<close> (which returns 1) the elements 2 and 3 are live:
  two more calls of \<open>dump\<close> would return them. After \<open>resize(5)\<close> the two calls return the
  empty indicator and 2: the cleared slot 0 was copied as an element and 3 was not copied.
\<close>

theorem resize_after_dump_loses_element:
  "fst (dump (full123 default_config)) = Some 1 \<and>
   cb_size (snd (dump (full123 default_config))) = 2 \<and>
   fst (dump (snd (dump (full123 default_config)))) = Some 2 \<and>
   fst (dump (dumps 2 (full123 default_config))) = Some 3 \<and>
   toSequence_spec (bufferState (snd (dump (full123 default_config)))) = [Some 2, Some 3] \<and>
   fst (resize (snd (dump (full123 default_config))) 5 False) = None \<and>
   cb_capacity (snd (resize (snd (dump (full123 default_config))) 5 False)) = 5 \<and>
   cb_size (snd (resize (snd (dump (full123 default_config))) 5 False)) = 2 \<and>
   toSequence_spec (bufferState (snd (resize (snd (dump (full123 default_config))) 5 False))) =
     [None, Some 2] \<and>
   fst (dump (snd (resize (snd (dump (full123 default_config))) 5 False))) = None \<and>
   fst (dump (dumps 1 (snd (resize (snd (dump (full123 default_config))) 5 False)))) = Some 2"
  by (simp add: dumps_numeral cb_defs ex_defs toSequence_spec_def upt_conv_Cons)

text \<open>
  Claim C5 (the write cursor stays in \<open>[0, capacity)\<close>). \<open>resize\<close> sets the write cursor to
  the number of copied elements without reducing it modulo the new capacity. Resizing the
  full buffer of capacity 3 to the capacity 3 succeeds and leaves the write cursor at 3,
  the capacity. With \<open>overwrite\<close> true the next write then stores its value at slot 3,
  outside the ring, where \<open>toArray\<close> and \<open>read\<close> never look, and moves the cursor to 1.
\<close>

theorem resize_leaves_write_cursor_at_capacity:
  "fst (resize (full123 default_config) 3 False) = None \<and>
   cb_capacity (snd (resize (full123 default_config) 3 False)) = 3 \<and>
   cb_size (snd (resize (full123 default_config) 3 False)) = 3 \<and>
   writeIndex (bufferState (snd (resize (full123 default_config) 3 False))) = Num 3 \<and>
   \<not> js_less (writeIndex (bufferState (snd (resize (full123 default_config) 3 False))))
       (cb_capacity (snd (resize (full123 default_config) 3 False))) \<and>
   fst (toArray (snd (cb_write
       (snd (resize (full123 (default_config\<lparr>overwrite := True\<rparr>)) 3 False)) 4)) False) =
     [Some 1, Some 2, Some 3] \<and>
   buffer (bufferState (snd (cb_write
       (snd (resize (full123 (default_config\<lparr>overwrite := True\<rparr>)) 3 False)) 4))) (Num 3) =
     Some 4 \<and>
   writeIndex (bufferState (snd (cb_write
       (snd (resize (full123 (default_config\<lparr>overwrite := True\<rparr>)) 3 False)) 4))) = Num 1"
  by (simp add: cb_defs ex_defs upt_conv_Cons)

end
